theory Spec2Isabelle
  imports Main "HOL-Library.Word" "HOL-Library.Multiset"
begin

section \<open>The SSTF I/O scheduler (sstf-iosched.c, for Linux 4.13.9)\<close>

text \<open>
  A shallow embedding of \<^verbatim>\<open>src/modules/ssft_iosched/sstf-iosched.c\<close>.

  \<^item> \<^verbatim>\<open>sector_t\<close> is an unsigned 64-bit integer (\<^verbatim>\<open>u64\<close> with CONFIG_LBDAF,
    \<^verbatim>\<open>unsigned long\<close> on a 64-bit kernel): a \<open>64 word\<close>. Subtraction wraps, \<open><\<close> on
    words is the unsigned comparison, and the C constant \<^verbatim>\<open>-1\<close> converted to
    \<^verbatim>\<open>sector_t\<close> is the all-ones word \<open>- 1\<close>.
  \<^item> A \<^verbatim>\<open>struct request *\<close> is a record: the pointer's identity (\<open>rq_handle\<close>) and the
    field \<^verbatim>\<open>__sector\<close> that \<^verbatim>\<open>blk_rq_pos\<close> reads.
  \<^item> The intrusive list \<^verbatim>\<open>nd->queue\<close> is the list of its entries from the head on.
    \<^verbatim>\<open>list_add_tail\<close> appends, \<^verbatim>\<open>list_for_each_entry\<close> walks it front to back and
    \<^verbatim>\<open>list_del_init\<close> unlinks one entry. A request is linked at most once in a
    well-formed list, so the list of a C state has no duplicates (\<open>distinct\<close>).
  \<^item> \<^verbatim>\<open>printk\<close> only reports; it is not part of the state.
\<close>

type_synonym sector_t = "64 word"

record request =
  rq_handle :: nat
  rq_sector :: sector_t

record sstf_data =
  queue :: "request list"
  head_position :: sector_t

text \<open>\<^verbatim>\<open>blk_rq_pos(rq)\<close> returns \<^verbatim>\<open>rq->__sector\<close>.\<close>

definition blk_rq_pos :: "request \<Rightarrow> sector_t" where
  "blk_rq_pos rq = rq_sector rq"

text \<open>
  The kernel's \<^verbatim>\<open>abs\<close> macro (include/linux/kernel.h) at an argument of an unsigned
  64-bit type: "If it is unsigned type, it is converted to signed type first", that is
  \<^verbatim>\<open>({ signed long long __x = (x); __x < 0 ? -__x : __x; })\<close>.
  The result is stored into a \<^verbatim>\<open>sector_t\<close> again. The kernel is compiled with
  \<^verbatim>\<open>-fno-strict-overflow\<close>, so the negation of the least signed value wraps, as the
  negation of words does.
\<close>

definition kernel_abs :: "sector_t \<Rightarrow> sector_t" where
  "kernel_abs x = (if sint x < 0 then - x else x)"

text \<open>The loop body's \<^verbatim>\<open>sector_t distance = abs(blk_rq_pos(rq) - nd->head_position)\<close>.\<close>

definition sstf_distance :: "sstf_data \<Rightarrow> request \<Rightarrow> sector_t" where
  "sstf_distance nd rq = kernel_abs (blk_rq_pos rq - head_position nd)"

text \<open>
  The loop of \<^verbatim>\<open>sstf_find_next_request\<close> over the entries still to visit; the pair is
  \<^verbatim>\<open>(min_distance, next_rq)\<close>, with \<open>None\<close> for \<^verbatim>\<open>NULL\<close>.
\<close>

fun sstf_scan :: "sstf_data \<Rightarrow> request list \<Rightarrow> sector_t \<times> request option
    \<Rightarrow> sector_t \<times> request option" where
  "sstf_scan nd [] (min_distance, next_rq) = (min_distance, next_rq)"
| "sstf_scan nd (rq # rest) (min_distance, next_rq) =
     (let distance = sstf_distance nd rq in
      if min_distance = - 1 \<or> distance < min_distance
      then sstf_scan nd rest (distance, Some rq)
      else sstf_scan nd rest (min_distance, next_rq))"

definition sstf_find_next_request :: "sstf_data \<Rightarrow> request option" where
  "sstf_find_next_request nd = snd (sstf_scan nd (queue nd) (- 1, None))"

text \<open>\<^verbatim>\<open>list_del_init(&rq->queuelist)\<close>: the entry is unlinked from the list.\<close>

definition list_del_init :: "request \<Rightarrow> request list \<Rightarrow> request list" where
  "list_del_init rq q = remove1 rq q"

text \<open>
  \<^verbatim>\<open>sstf_dispatch\<close>: the returned \<^verbatim>\<open>int\<close>, the request handed to
  \<^verbatim>\<open>elv_dispatch_sort\<close> (if any) and the state afterwards.
\<close>

definition sstf_dispatch :: "sstf_data \<Rightarrow> int \<times> request option \<times> sstf_data" where
  "sstf_dispatch nd =
     (case sstf_find_next_request nd of
        Some rq \<Rightarrow>
          (1, Some rq,
           nd\<lparr>queue := list_del_init rq (queue nd), head_position := blk_rq_pos rq\<rparr>)
      | None \<Rightarrow> (0, None, nd))"

text \<open>\<^verbatim>\<open>sstf_add_request\<close>: \<^verbatim>\<open>list_add_tail(&rq->queuelist, &nd->queue)\<close>.\<close>

definition sstf_add_request :: "sstf_data \<Rightarrow> request \<Rightarrow> sstf_data" where
  "sstf_add_request nd rq = nd\<lparr>queue := queue nd @ [rq]\<rparr>"

text \<open>\<^verbatim>\<open>sstf_merged_requests\<close>: only \<^verbatim>\<open>next\<close> is touched; \<^verbatim>\<open>rq\<close> is not used.\<close>

definition sstf_merged_requests :: "sstf_data \<Rightarrow> request \<Rightarrow> request \<Rightarrow> sstf_data" where
  "sstf_merged_requests nd rq nxt = nd\<lparr>queue := list_del_init nxt (queue nd)\<rparr>"

text \<open>
  \<^verbatim>\<open>sstf_init_queue\<close>. The host queue \<^verbatim>\<open>q\<close> is its \<^verbatim>\<open>elevator\<close> pointer, followed to
  the elevator's data (\<open>None\<close> while no elevator is installed). Whether
  \<^verbatim>\<open>elevator_alloc\<close> and \<^verbatim>\<open>kmalloc_node\<close> return memory is decided outside the
  module: the two flags say whether each call succeeds. \<^verbatim>\<open>ENOMEM\<close> is 12.
\<close>

record request_queue =
  elevator :: "sstf_data option"

definition ENOMEM :: int where
  "ENOMEM = 12"

definition sstf_init_queue :: "bool \<Rightarrow> bool \<Rightarrow> request_queue \<Rightarrow> int \<times> request_queue" where
  "sstf_init_queue eq_allocated nd_allocated q =
     (if \<not> eq_allocated then (- ENOMEM, q)
      else if \<not> nd_allocated then (- ENOMEM, q)
      else (0, q\<lparr>elevator := Some \<lparr>queue = [], head_position = 0\<rparr>\<rparr>))"

text \<open>
  \<^verbatim>\<open>sstf_exit_queue\<close>: \<^verbatim>\<open>BUG_ON(!list_empty(&nd->queue))\<close> stops the kernel thread
  before \<^verbatim>\<open>kfree(nd)\<close> is reached; otherwise the state is freed.
\<close>

datatype fault = BUG

datatype released = Freed

definition list_empty :: "request list \<Rightarrow> bool" where
  "list_empty q = (q = [])"

definition sstf_exit_queue :: "sstf_data \<Rightarrow> fault + released" where
  "sstf_exit_queue nd = (if \<not> list_empty (queue nd) then Inl BUG else Inr Freed)"

section \<open>The callers' loops and the selection as the specification words it\<close>

text \<open>
  The host calls \<^verbatim>\<open>sstf_dispatch\<close> again and again; \<open>dispatch_repeat n\<close> is \<open>n\<close> calls in
  a row, with the list of the values returned and the state after the last call.
\<close>

fun dispatch_repeat :: "nat \<Rightarrow> sstf_data \<Rightarrow> int list \<times> sstf_data" where
  "dispatch_repeat 0 nd = ([], nd)"
| "dispatch_repeat (Suc n) nd =
     (case sstf_dispatch nd of
        (ret, _, nd') \<Rightarrow> (case dispatch_repeat n nd' of (rets, nd'') \<Rightarrow> (ret # rets, nd'')))"

text \<open>
  The specification's \<open>find_nearest\<close>, worded without a sentinel: none on the empty
  queue, otherwise the entry of least distance, the first-encountered one among equals.
  It follows the specification's words and is compared with the scan of the source
  (\<open>find_next_request_refines_spec\<close>).
\<close>

fun find_nearest_spec :: "sstf_data \<Rightarrow> request list \<Rightarrow> request option" where
  "find_nearest_spec nd [] = None"
| "find_nearest_spec nd (x # xs) =
     (case find_nearest_spec nd xs of
        None \<Rightarrow> Some x
      | Some y \<Rightarrow> if sstf_distance nd y < sstf_distance nd x then Some y else Some x)"

text \<open>
  The specification's distance, \<open>|target_location - head_position|\<close>, on the two
  positions read as unsigned numbers. It follows the specification's words; the
  distance the source computes is \<open>sstf_distance\<close>.
\<close>

definition seek_distance :: "sstf_data \<Rightarrow> request \<Rightarrow> int" where
  "seek_distance nd rq = \<bar>uint (rq_sector rq) - uint (head_position nd)\<bar>"

section \<open>The distance computed by the scan\<close>

text \<open>
  Reading the words as unsigned numbers: the wrapped difference, the signed reading of a
  word, and the value of the \<^verbatim>\<open>abs\<close> macro.
\<close>

lemma sint_sector: "sint (x::sector_t) = (if uint x < 2^63 then uint x else uint x - 2^64)"
proof -
  have b: "0 \<le> uint x" "uint x < 2^64"
    using uint_lt2p [of x] by simp_all
  have "sint x = (uint x + 2^63) mod 2^64 - 2^63"
    by (simp add: sint_uint signed_take_bit_eq_take_bit_shift take_bit_eq_mod)
  moreover have "uint x < 2^63 \<Longrightarrow> (uint x + 2^63) mod 2^64 = uint x + 2^63"
    using b by (simp add: mod_pos_pos_trivial)
  moreover have "\<not> uint x < 2^63 \<Longrightarrow> (uint x + 2^63) mod 2^64 = uint x + 2^63 - 2^64"
  proof -
    assume "\<not> uint x < 2^63"
    then have "0 \<le> uint x + 2^63 - 2^64" "uint x + 2^63 - 2^64 < 2^64" using b by simp_all
    then have "(uint x + 2^63 - 2^64) mod 2^64 = uint x + 2^63 - 2^64"
      by (rule mod_pos_pos_trivial)
    moreover have "(uint x + 2^63 - 2^64) mod 2^64 = (uint x + 2^63) mod 2^64"
      by (rule minus_mod_self2)
    ultimately show ?thesis by (simp only:)
  qed
  ultimately show ?thesis by auto
qed

lemma uint_kernel_abs:
  "uint (kernel_abs x) = (if uint x < 2^63 then uint x else 2^64 - uint x)"
proof -
  have b: "0 \<le> uint x" "uint x < 2^64"
    using uint_lt2p [of x] by simp_all
  show ?thesis
  proof (cases "uint x < 2^63")
    case True
    then show ?thesis by (simp add: kernel_abs_def sint_sector)
  next
    case False
    then have neg: "sint x < 0" using b by (simp add: sint_sector)
    have "uint (- x) = (- uint x) mod 2^64" by (simp add: uint_word_ariths)
    also have "\<dots> = (2^64 - uint x) mod 2^64"
      by (metis uminus_add_conv_diff mod_add_self1 add.commute)
    also have "\<dots> = 2^64 - uint x"
      using False b by (intro mod_pos_pos_trivial) simp_all
    finally show ?thesis using False neg by (simp add: kernel_abs_def)
  qed
qed

lemma uint_sector_diff:
  "uint ((a::sector_t) - h) = (if uint h \<le> uint a then uint a - uint h else 2^64 - (uint h - uint a))"
proof -
  have b: "0 \<le> uint a" "uint a < 2^64" "0 \<le> uint h" "uint h < 2^64"
    using uint_lt2p [of a] uint_lt2p [of h] by simp_all
  have e: "uint (a - h) = (uint a - uint h) mod 2^64" by (simp add: uint_word_ariths)
  show ?thesis
  proof (cases "uint h \<le> uint a")
    case True
    then have "0 \<le> uint a - uint h" "uint a - uint h < 2^64" using b by linarith+
    then have "(uint a - uint h) mod 2^64 = uint a - uint h"
      by (rule mod_pos_pos_trivial)
    with e True show ?thesis by simp
  next
    case False
    have "(uint a - uint h) mod 2^64 = (uint a - uint h + 2^64) mod 2^64" by simp
    also have "\<dots> = uint a - uint h + 2^64"
    proof (rule mod_pos_pos_trivial)
      show "0 \<le> uint a - uint h + 2^64" using False b by linarith
      show "uint a - uint h + 2^64 < 2^64" using False b by linarith
    qed
    finally show ?thesis using e False by simp
  qed
qed

lemma uint_sstf_distance:
  "uint (sstf_distance nd rq) =
     min \<bar>uint (blk_rq_pos rq) - uint (head_position nd)\<bar>
         (2^64 - \<bar>uint (blk_rq_pos rq) - uint (head_position nd)\<bar>)"
proof -
  have b: "0 \<le> uint (blk_rq_pos rq)" "uint (blk_rq_pos rq) < 2^64"
     "0 \<le> uint (head_position nd)" "uint (head_position nd) < 2^64"
    using uint_lt2p [of "blk_rq_pos rq"] uint_lt2p [of "head_position nd"] by simp_all
  show ?thesis
    unfolding sstf_distance_def uint_kernel_abs uint_sector_diff
    using b by (auto simp: min_def)
qed

lemma min_half: "min (d::int) (2^64 - d) \<le> 2^63"
proof (cases "d \<le> 2^63")
  case True
  then show ?thesis by (rule min.coboundedI1)
next
  case False
  then have "2^64 - d \<le> (2^63::int)" by simp
  then show ?thesis by (rule min.coboundedI2)
qed

lemma sstf_distance_le: "uint (sstf_distance nd rq) \<le> 2^63"
  unfolding uint_sstf_distance by (rule min_half)

lemma uint_sentinel: "uint (- 1 :: sector_t) = 2^64 - 1"
  by (simp add: uint_word_ariths)

lemma sstf_distance_not_sentinel: "sstf_distance nd rq \<noteq> - 1"
proof
  assume "sstf_distance nd rq = - 1"
  then have "uint (sstf_distance nd rq) = 2^64 - 1"
    by (simp only: uint_sentinel)
  moreover have "\<not> (2^64 - 1 \<le> (2^63::int))" by simp
  ultimately show False using sstf_distance_le [of nd rq] by (simp only:)
qed

text \<open>
  Within \<open>2^63\<close> of the head position the computed distance is the specification's
  distance, and the two order the requests alike.
\<close>

lemma seek_distance_computed:
  assumes "seek_distance nd x \<le> 2^63"
  shows "uint (sstf_distance nd x) = seek_distance nd x"
proof -
  have m: "uint (sstf_distance nd x) =
      min (seek_distance nd x) (2^64 - seek_distance nd x)"
    unfolding seek_distance_def using uint_sstf_distance [of nd x]
    by (simp only: blk_rq_pos_def)
  from assms have "seek_distance nd x \<le> 2^64 - seek_distance nd x" by simp
  then show ?thesis unfolding m by (rule min.absorb1)
qed

lemma seek_distance_below:
  assumes "uint (head_position nd) < 2^63" and "uint (rq_sector x) < 2^63"
  shows "seek_distance nd x \<le> 2^63"
proof -
  have "0 \<le> uint (head_position nd)" "0 \<le> uint (rq_sector x)" by simp_all
  with assms show ?thesis unfolding seek_distance_def by linarith
qed

lemma computed_le_iff:
  assumes "seek_distance nd r \<le> 2^63" and "seek_distance nd x \<le> 2^63"
  shows "(sstf_distance nd r \<le> sstf_distance nd x) = (seek_distance nd r \<le> seek_distance nd x)"
  by (simp only: word_le_def seek_distance_computed [OF assms(1)]
      seek_distance_computed [OF assms(2)])

lemma computed_eq_iff:
  assumes "seek_distance nd r \<le> 2^63" and "seek_distance nd x \<le> 2^63"
  shows "(sstf_distance nd x = sstf_distance nd r) = (seek_distance nd x = seek_distance nd r)"
proof -
  have "(sstf_distance nd x = sstf_distance nd r)
      = (uint (sstf_distance nd x) = uint (sstf_distance nd r))"
    by (simp only: word_uint_eq_iff)
  then show ?thesis
    by (simp only: seek_distance_computed [OF assms(1)] seek_distance_computed [OF assms(2)])
qed

section \<open>The scan selects the first entry of least computed distance\<close>

lemma sstf_scan_append:
  "sstf_scan nd (xs @ ys) acc = sstf_scan nd ys (sstf_scan nd xs acc)"
proof (induction xs arbitrary: acc)
  case Nil
  show ?case by (cases acc) simp
next
  case (Cons x xs)
  show ?case by (cases acc) (simp add: Cons.IH Let_def)
qed

lemma sstf_scan_first:
  "sstf_scan nd [x] (- 1, None) = (sstf_distance nd x, Some x)"
  by simp

lemma sstf_scan_next:
  "sstf_scan nd [x] (sstf_distance nd r, Some r) =
     (if sstf_distance nd x < sstf_distance nd r then (sstf_distance nd x, Some x)
      else (sstf_distance nd r, Some r))"
  by (simp add: sstf_distance_not_sentinel Let_def)

lemma sstf_scan_split:
  assumes "xs \<noteq> []"
  shows "\<exists>pre r post. xs = pre @ r # post
           \<and> sstf_scan nd xs (- 1, None) = (sstf_distance nd r, Some r)
           \<and> (\<forall>x\<in>set pre. sstf_distance nd r < sstf_distance nd x)
           \<and> (\<forall>x\<in>set post. sstf_distance nd r \<le> sstf_distance nd x)"
  using assms
proof (induction xs rule: rev_nonempty_induct)
  case (single x)
  have "[x] = [] @ x # []" by simp
  then show ?case using sstf_scan_first [of nd x] by fastforce
next
  case (snoc x xs)
  then obtain pre r post where xs: "xs = pre @ r # post"
    and sc: "sstf_scan nd xs (- 1, None) = (sstf_distance nd r, Some r)"
    and lt: "\<forall>y\<in>set pre. sstf_distance nd r < sstf_distance nd y"
    and le: "\<forall>y\<in>set post. sstf_distance nd r \<le> sstf_distance nd y"
    by blast
  have step: "sstf_scan nd (xs @ [x]) (- 1, None) =
      (if sstf_distance nd x < sstf_distance nd r then (sstf_distance nd x, Some x)
       else (sstf_distance nd r, Some r))"
    by (simp only: sstf_scan_append sc sstf_scan_next)
  show ?case
  proof (cases "sstf_distance nd x < sstf_distance nd r")
    case True
    have "\<forall>y\<in>set xs. sstf_distance nd x < sstf_distance nd y"
      using True lt le xs by fastforce
    moreover have "xs @ [x] = xs @ x # []" by simp
    moreover have "sstf_scan nd (xs @ [x]) (- 1, None) = (sstf_distance nd x, Some x)"
      using step True by simp
    ultimately show ?thesis by (metis empty_iff empty_set)
  next
    case False
    have "xs @ [x] = pre @ r # (post @ [x])" using xs by simp
    moreover have "sstf_scan nd (xs @ [x]) (- 1, None) = (sstf_distance nd r, Some r)"
      using step False by simp
    moreover have "\<forall>y\<in>set (post @ [x]). sstf_distance nd r \<le> sstf_distance nd y"
      using le False by auto
    ultimately show ?thesis using lt by blast
  qed
qed

lemma find_next_request_split:
  assumes "queue nd \<noteq> []"
  shows "\<exists>pre r post. queue nd = pre @ r # post
           \<and> sstf_find_next_request nd = Some r
           \<and> (\<forall>x\<in>set pre. sstf_distance nd r < sstf_distance nd x)
           \<and> (\<forall>x\<in>set post. sstf_distance nd r \<le> sstf_distance nd x)"
proof -
  from sstf_scan_split [OF assms, of nd] obtain pre r post where
    "queue nd = pre @ r # post"
    "sstf_scan nd (queue nd) (- 1, None) = (sstf_distance nd r, Some r)"
    "\<forall>x\<in>set pre. sstf_distance nd r < sstf_distance nd x"
    "\<forall>x\<in>set post. sstf_distance nd r \<le> sstf_distance nd x"
    by blast
  then show ?thesis unfolding sstf_find_next_request_def by (metis snd_conv)
qed

lemma find_next_request_empty:
  "queue nd = [] \<Longrightarrow> sstf_find_next_request nd = None"
  by (simp add: sstf_find_next_request_def)

lemma first_least_unique:
  assumes q: "q = pre @ r # post" and q': "q = pre' @ r' # post'"
    and least: "\<forall>x\<in>set q. sstf_distance nd r \<le> sstf_distance nd x"
    and first: "\<forall>x\<in>set pre. sstf_distance nd x \<noteq> sstf_distance nd r"
    and lt': "\<forall>x\<in>set pre'. sstf_distance nd r' < sstf_distance nd x"
    and le': "\<forall>x\<in>set post'. sstf_distance nd r' \<le> sstf_distance nd x"
  shows "pre' = pre \<and> r' = r \<and> post' = post"
proof -
  have r'_in: "r' \<in> set q" by (simp add: q')
  have r_in: "r \<in> set q" by (simp add: q)
  have r_le: "sstf_distance nd r \<le> sstf_distance nd r'" using least r'_in by blast
  have r_notin: "r \<notin> set pre'"
  proof
    assume "r \<in> set pre'"
    then have "sstf_distance nd r' < sstf_distance nd r" using lt' by blast
    with r_le show False by simp
  qed
  have r'_le: "sstf_distance nd r' \<le> sstf_distance nd r"
    using r_in r_notin le' unfolding q' by auto
  have eq: "sstf_distance nd r' = sstf_distance nd r" using r_le r'_le by simp
  have r'_notin: "r' \<notin> set pre" using first eq by blast
  from q q' have "pre @ r # post = pre' @ r' # post'" by simp
  then show ?thesis
    using r_notin r'_notin
    by (auto simp: append_eq_append_conv2 append_eq_Cons_conv Cons_eq_append_conv)
qed

lemma first_least_selected:
  assumes a: "queue nd = pre @ r # post"
    and least: "\<forall>x\<in>set (queue nd). sstf_distance nd r \<le> sstf_distance nd x"
    and first: "\<forall>x\<in>set pre. sstf_distance nd x \<noteq> sstf_distance nd r"
  shows "sstf_find_next_request nd = Some r
      \<and> sstf_dispatch nd =
          (1, Some r, \<lparr>queue = pre @ post, head_position = rq_sector r\<rparr>)"
proof -
  from a have "queue nd \<noteq> []" by simp
  from find_next_request_split [OF this] obtain pre' r' post' where
    s: "queue nd = pre' @ r' # post'" and f: "sstf_find_next_request nd = Some r'"
    and lt: "\<forall>x\<in>set pre'. sstf_distance nd r' < sstf_distance nd x"
    and le: "\<forall>x\<in>set post'. sstf_distance nd r' \<le> sstf_distance nd x"
    by blast
  have u: "pre' = pre \<and> r' = r \<and> post' = post"
    using first_least_unique [OF a s least first lt le] .
  have fr: "sstf_find_next_request nd = Some r" using f u by simp
  have "r \<notin> set pre" using first by blast
  then have "remove1 r (pre @ r # post) = pre @ post" by (simp add: remove1_append)
  then have "sstf_dispatch nd =
      (1, Some r, \<lparr>queue = pre @ post, head_position = rq_sector r\<rparr>)"
    using fr a by (simp add: sstf_dispatch_def list_del_init_def blk_rq_pos_def)
  with fr show ?thesis by simp
qed

lemma find_nearest_spec_split:
  assumes "xs \<noteq> []"
  shows "\<exists>pre r post. xs = pre @ r # post \<and> find_nearest_spec nd xs = Some r
           \<and> (\<forall>x\<in>set pre. sstf_distance nd r < sstf_distance nd x)
           \<and> (\<forall>x\<in>set post. sstf_distance nd r \<le> sstf_distance nd x)"
  using assms
proof (induction xs)
  case Nil
  then show ?case by simp
next
  case (Cons x xs)
  show ?case
  proof (cases "xs = []")
    case True
    then have "x # xs = [] @ x # []" "find_nearest_spec nd (x # xs) = Some x" by simp_all
    then show ?thesis by fastforce
  next
    case False
    from Cons.IH [OF this] obtain pre r post where xs: "xs = pre @ r # post"
      and f: "find_nearest_spec nd xs = Some r"
      and lt: "\<forall>y\<in>set pre. sstf_distance nd r < sstf_distance nd y"
      and le: "\<forall>y\<in>set post. sstf_distance nd r \<le> sstf_distance nd y"
      by blast
    show ?thesis
    proof (cases "sstf_distance nd r < sstf_distance nd x")
      case True
      have "x # xs = (x # pre) @ r # post" using xs by simp
      moreover have "find_nearest_spec nd (x # xs) = Some r" using f True by simp
      moreover have "\<forall>y\<in>set (x # pre). sstf_distance nd r < sstf_distance nd y"
        using lt True by simp
      ultimately show ?thesis using le by blast
    next
      case False
      have "x # xs = [] @ x # xs" by simp
      moreover have "find_nearest_spec nd (x # xs) = Some x" using f False by simp
      moreover have "\<forall>y\<in>set xs. sstf_distance nd x \<le> sstf_distance nd y"
        using lt le False xs by fastforce
      ultimately show ?thesis by (metis empty_iff empty_set)
    qed
  qed
qed

lemma find_next_request_refines_spec:
  "sstf_find_next_request nd = find_nearest_spec nd (queue nd)"
proof (cases "queue nd = []")
  case True
  then show ?thesis by (simp add: find_next_request_empty)
next
  case False
  from find_next_request_split [OF False] obtain pre r post where
    s: "queue nd = pre @ r # post" and f: "sstf_find_next_request nd = Some r"
    and lt: "\<forall>x\<in>set pre. sstf_distance nd r < sstf_distance nd x"
    and le: "\<forall>x\<in>set post. sstf_distance nd r \<le> sstf_distance nd x"
    by blast
  from find_nearest_spec_split [OF False, of nd] obtain pre' r' post' where
    s': "queue nd = pre' @ r' # post'" and f': "find_nearest_spec nd (queue nd) = Some r'"
    and lt': "\<forall>x\<in>set pre'. sstf_distance nd r' < sstf_distance nd x"
    and le': "\<forall>x\<in>set post'. sstf_distance nd r' \<le> sstf_distance nd x"
    by blast
  have least: "\<forall>x\<in>set (queue nd). sstf_distance nd r \<le> sstf_distance nd x"
    using lt le s by fastforce
  have first: "\<forall>x\<in>set pre. sstf_distance nd x \<noteq> sstf_distance nd r"
    using lt by fastforce
  from first_least_unique [OF s s' least first lt' le'] f f' show ?thesis by simp
qed

section \<open>One dispatch, and dispatching until the queue is empty\<close>

lemma dispatch_split:
  assumes "queue nd \<noteq> []"
  shows "\<exists>pre rq post. queue nd = pre @ rq # post \<and> rq \<notin> set pre
     \<and> sstf_find_next_request nd = Some rq
     \<and> (\<forall>x\<in>set (queue nd). sstf_distance nd rq \<le> sstf_distance nd x)
     \<and> sstf_dispatch nd =
         (1, Some rq, \<lparr>queue = pre @ post, head_position = blk_rq_pos rq\<rparr>)"
proof -
  from find_next_request_split [OF assms] obtain pre r post where
    s: "queue nd = pre @ r # post" and f: "sstf_find_next_request nd = Some r"
    and lt: "\<forall>x\<in>set pre. sstf_distance nd r < sstf_distance nd x"
    and le: "\<forall>x\<in>set post. sstf_distance nd r \<le> sstf_distance nd x"
    by blast
  have notin: "r \<notin> set pre" using lt by auto
  then have "remove1 r (pre @ r # post) = pre @ post" by (simp add: remove1_append)
  then have d: "sstf_dispatch nd =
      (1, Some r, \<lparr>queue = pre @ post, head_position = blk_rq_pos r\<rparr>)"
    using f s by (simp add: sstf_dispatch_def list_del_init_def)
  have "\<forall>x\<in>set (queue nd). sstf_distance nd r \<le> sstf_distance nd x"
    using lt le s by fastforce
  with s f notin d show ?thesis by blast
qed

lemma dispatch_empty: "queue nd = [] \<Longrightarrow> sstf_dispatch nd = (0, None, nd)"
  by (simp add: sstf_dispatch_def find_next_request_empty)

lemma dispatch_shrinks:
  assumes "sstf_dispatch nd = (ret, Some rq, nd')"
  shows "length (queue nd') < length (queue nd)"
proof (cases "queue nd = []")
  case True
  with assms show ?thesis by (simp add: dispatch_empty)
next
  case False
  from dispatch_split [OF False] obtain pre r post where
    "queue nd = pre @ r # post"
    "sstf_dispatch nd = (1, Some r, \<lparr>queue = pre @ post, head_position = blk_rq_pos r\<rparr>)"
    by blast
  with assms show ?thesis by auto
qed

text \<open>
  The host's loop \<^verbatim>\<open>while (sstf_dispatch(q, 0));\<close>: the list of the successful
  dispatches, each with the state before it, the request handed over and the state
  after it. It terminates since every successful dispatch shortens the queue.
\<close>

function drain :: "sstf_data \<Rightarrow> (sstf_data \<times> request \<times> sstf_data) list" where
  "drain nd =
     (case sstf_dispatch nd of
        (ret, Some rq, nd') \<Rightarrow> if ret \<noteq> 0 then (nd, rq, nd') # drain nd' else []
      | (ret, None, nd') \<Rightarrow> [])"
  by pat_completeness auto
termination
  by (relation "measure (\<lambda>nd. length (queue nd))") (auto dest: dispatch_shrinks [OF sym])

declare drain.simps [simp del]

text \<open>
  The distance of each dispatched request from the head position at the time of its
  dispatch.
\<close>

definition dispatch_distances :: "sstf_data \<Rightarrow> sector_t list" where
  "dispatch_distances nd = map (\<lambda>(s, rq, s'). sstf_distance s rq) (drain nd)"

lemma drain_idle: "sstf_dispatch nd = (0, None, nd') \<Longrightarrow> drain nd = []"
  by (simp add: drain.simps)

lemma drain_step:
  "sstf_dispatch nd = (1, Some rq, nd') \<Longrightarrow> drain nd = (nd, rq, nd') # drain nd'"
  by (simp add: drain.simps)

lemma drain_empty: "queue nd = [] \<Longrightarrow> drain nd = []"
  using dispatch_empty [of nd] by (simp add: drain.simps)

lemma drain_split:
  assumes "queue nd \<noteq> []"
  shows "\<exists>pre rq post. queue nd = pre @ rq # post
     \<and> (\<forall>x\<in>set (queue nd). sstf_distance nd rq \<le> sstf_distance nd x)
     \<and> sstf_dispatch nd =
         (1, Some rq, \<lparr>queue = pre @ post, head_position = blk_rq_pos rq\<rparr>)
     \<and> drain nd = (nd, rq, \<lparr>queue = pre @ post, head_position = blk_rq_pos rq\<rparr>)
         # drain \<lparr>queue = pre @ post, head_position = blk_rq_pos rq\<rparr>"
proof -
  from dispatch_split [OF assms] obtain pre rq post where
    s: "queue nd = pre @ rq # post"
    and m: "\<forall>x\<in>set (queue nd). sstf_distance nd rq \<le> sstf_distance nd x"
    and d: "sstf_dispatch nd =
         (1, Some rq, \<lparr>queue = pre @ post, head_position = blk_rq_pos rq\<rparr>)"
    by blast
  from drain_step [OF d] s m d show ?thesis by blast
qed

lemma drain_all: "mset (map (\<lambda>(s, rq, s'). rq) (drain nd)) = mset (queue nd)"
proof (induction "length (queue nd)" arbitrary: nd)
  case 0
  then show ?case by (simp add: drain_empty)
next
  case (Suc n)
  then have "queue nd \<noteq> []" by auto
  from drain_split [OF this] obtain pre rq post where
    s: "queue nd = pre @ rq # post"
    and d: "drain nd = (nd, rq, \<lparr>queue = pre @ post, head_position = blk_rq_pos rq\<rparr>)
         # drain \<lparr>queue = pre @ post, head_position = blk_rq_pos rq\<rparr>"
    by blast
  have "n = length (queue \<lparr>queue = pre @ post, head_position = blk_rq_pos rq\<rparr>)"
    using Suc.hyps(2) s by simp
  from Suc.hyps(1) [OF this] show ?case using s d by simp
qed

lemma drain_steps:
  "\<forall>(s, rq, s')\<in>set (drain nd).
      sstf_dispatch s = (1, Some rq, s')
      \<and> (\<forall>x\<in>set (queue s). sstf_distance s rq \<le> sstf_distance s x)
      \<and> head_position s' = blk_rq_pos rq"
proof (induction "length (queue nd)" arbitrary: nd)
  case 0
  then show ?case by (simp add: drain_empty)
next
  case (Suc n)
  then have "queue nd \<noteq> []" by auto
  from drain_split [OF this] obtain pre rq post where
    s: "queue nd = pre @ rq # post"
    and m: "\<forall>x\<in>set (queue nd). sstf_distance nd rq \<le> sstf_distance nd x"
    and dp: "sstf_dispatch nd =
         (1, Some rq, \<lparr>queue = pre @ post, head_position = blk_rq_pos rq\<rparr>)"
    and d: "drain nd = (nd, rq, \<lparr>queue = pre @ post, head_position = blk_rq_pos rq\<rparr>)
         # drain \<lparr>queue = pre @ post, head_position = blk_rq_pos rq\<rparr>"
    by blast
  have "n = length (queue \<lparr>queue = pre @ post, head_position = blk_rq_pos rq\<rparr>)"
    using Suc.hyps(2) s by simp
  from Suc.hyps(1) [OF this] m dp show ?case unfolding d by simp
qed

lemma drain_chain:
  "(drain nd \<noteq> [] \<longrightarrow> fst (hd (drain nd)) = nd \<and> queue (snd (snd (last (drain nd)))) = [])
   \<and> (\<forall>i. Suc i < length (drain nd) \<longrightarrow>
         fst (drain nd ! Suc i) = snd (snd (drain nd ! i)))"
proof (induction "length (queue nd)" arbitrary: nd)
  case 0
  then show ?case by (simp add: drain_empty)
next
  case (Suc n)
  then have "queue nd \<noteq> []" by auto
  from drain_split [OF this] obtain pre rq post where
    s: "queue nd = pre @ rq # post"
    and d: "drain nd = (nd, rq, \<lparr>queue = pre @ post, head_position = blk_rq_pos rq\<rparr>)
         # drain \<lparr>queue = pre @ post, head_position = blk_rq_pos rq\<rparr>"
    by blast
  let ?nd' = "\<lparr>queue = pre @ post, head_position = blk_rq_pos rq\<rparr>"
  have "n = length (queue ?nd')" using Suc.hyps(2) s by simp
  from Suc.hyps(1) [OF this] have
    ih1: "drain ?nd' \<noteq> [] \<longrightarrow> fst (hd (drain ?nd')) = ?nd' \<and> queue (snd (snd (last (drain ?nd')))) = []"
    and ih2: "\<forall>i. Suc i < length (drain ?nd') \<longrightarrow>
         fst (drain ?nd' ! Suc i) = snd (snd (drain ?nd' ! i))"
    by blast+
  have e: "drain ?nd' = [] \<Longrightarrow> pre @ post = []"
  proof (rule ccontr)
    assume a: "drain ?nd' = []" and "pre @ post \<noteq> []"
    then have "queue ?nd' \<noteq> []" by simp
    from drain_split [OF this] a show False by auto
  qed
  have 1: "fst (hd (drain nd)) = nd" unfolding d by simp
  have 2: "queue (snd (snd (last (drain nd)))) = []"
  proof (cases "drain ?nd' = []")
    case True
    with e show ?thesis unfolding d by simp
  next
    case False
    with ih1 show ?thesis unfolding d by simp
  qed
  have 3: "fst (drain nd ! Suc i) = snd (snd (drain nd ! i))" if "Suc i < length (drain nd)" for i
  proof (cases i)
    case 0
    with that have "drain ?nd' \<noteq> []" unfolding d by auto
    with ih1 have "fst (hd (drain ?nd')) = ?nd'" by blast
    with \<open>drain ?nd' \<noteq> []\<close> have "fst (drain ?nd' ! 0) = ?nd'" by (simp add: hd_conv_nth)
    with 0 show ?thesis unfolding d by simp
  next
    case (Suc j)
    with that have "Suc j < length (drain ?nd')" unfolding d by simp
    with ih2 have "fst (drain ?nd' ! Suc j) = snd (snd (drain ?nd' ! j))" by blast
    with Suc show ?thesis unfolding d by simp
  qed
  from 1 2 3 show ?case by blast
qed

lemma drain_states:
  "\<forall>(s, rq, s')\<in>set (drain nd).
      rq \<in> set (queue s) \<and> set (queue s) \<subseteq> set (queue nd)
      \<and> (head_position s = head_position nd \<or> head_position s \<in> rq_sector ` set (queue nd))"
proof (induction "length (queue nd)" arbitrary: nd)
  case 0
  then show ?case by (simp add: drain_empty)
next
  case (Suc n)
  then have "queue nd \<noteq> []" by auto
  from drain_split [OF this] obtain pre rq post where
    s: "queue nd = pre @ rq # post"
    and d: "drain nd = (nd, rq, \<lparr>queue = pre @ post, head_position = blk_rq_pos rq\<rparr>)
         # drain \<lparr>queue = pre @ post, head_position = blk_rq_pos rq\<rparr>"
    by blast
  let ?nd' = "\<lparr>queue = pre @ post, head_position = blk_rq_pos rq\<rparr>"
  have "n = length (queue ?nd')" using Suc.hyps(2) s by simp
  from Suc.hyps(1) [OF this] have ih: "\<forall>(t, r, t')\<in>set (drain ?nd').
      r \<in> set (queue t) \<and> set (queue t) \<subseteq> set (queue ?nd')
      \<and> (head_position t = head_position ?nd' \<or> head_position t \<in> rq_sector ` set (queue ?nd'))" .
  have sub: "set (queue ?nd') \<subseteq> set (queue nd)" using s by auto
  have hd: "head_position ?nd' \<in> rq_sector ` set (queue nd)"
    using s by (simp add: blk_rq_pos_def)
  have rest: "\<forall>(t, r, t')\<in>set (drain ?nd').
      r \<in> set (queue t) \<and> set (queue t) \<subseteq> set (queue nd)
      \<and> (head_position t = head_position nd \<or> head_position t \<in> rq_sector ` set (queue nd))"
  proof (clarify, intro conjI)
    fix t r t' assume m: "(t, r, t') \<in> set (drain ?nd')"
    with ih have 1: "r \<in> set (queue t)" and 2: "set (queue t) \<subseteq> set (queue ?nd')"
      and 3: "head_position t = head_position ?nd' \<or> head_position t \<in> rq_sector ` set (queue ?nd')"
      by blast+
    show "r \<in> set (queue t)" by (rule 1)
    show "set (queue t) \<subseteq> set (queue nd)" using 2 sub by blast
    show "head_position t = head_position nd \<or> head_position t \<in> rq_sector ` set (queue nd)"
    proof (rule disjI2)
      from 3 show "head_position t \<in> rq_sector ` set (queue nd)"
      proof
        assume "head_position t = head_position ?nd'"
        with hd show ?thesis by simp
      next
        assume "head_position t \<in> rq_sector ` set (queue ?nd')"
        with sub show ?thesis by auto
      qed
    qed
  qed
  have first: "rq \<in> set (queue nd)" using s by simp
  show ?case unfolding d using rest first by simp
qed

lemma drain_seek_least:
  assumes h: "uint (head_position nd) < 2^63"
    and q: "\<forall>x\<in>set (queue nd). uint (rq_sector x) < 2^63"
  shows "\<forall>(s, rq, s')\<in>set (drain nd).
      \<forall>x\<in>set (queue s). seek_distance s rq \<le> seek_distance s x"
proof (clarify)
  fix s rq s' x assume m: "(s, rq, s') \<in> set (drain nd)" and x: "x \<in> set (queue s)"
  from drain_states [of nd] m have rq: "rq \<in> set (queue s)"
    and sub: "set (queue s) \<subseteq> set (queue nd)"
    and hp: "head_position s = head_position nd \<or> head_position s \<in> rq_sector ` set (queue nd)"
    by blast+
  have hs: "uint (head_position s) < 2^63" using hp h q by auto
  have bx: "seek_distance s x \<le> 2^63"
    using hs q sub x by (intro seek_distance_below) auto
  have br: "seek_distance s rq \<le> 2^63"
    using hs q sub rq by (intro seek_distance_below) auto
  from drain_steps [of nd] m x have "sstf_distance s rq \<le> sstf_distance s x" by blast
  then show "seek_distance s rq \<le> seek_distance s x"
    using computed_le_iff [OF br bx] by blast
qed

lemma add_requests:
  "foldl sstf_add_request nd rs = \<lparr>queue = queue nd @ rs, head_position = head_position nd\<rparr>"
  by (induction rs arbitrary: nd) (simp_all add: sstf_add_request_def)

section \<open>Scenarios and the tie-break\<close>

text \<open>
  C1. From the fresh state (empty queue, head position 0), adding requests at sectors
  100, 10 and 50 in that order gives the queue [100, 10, 50]. The first dispatch returns 1,
  hands over the request at 10 and sets the head position to 10; the second hands over
  the request at 50 and sets the head position to 50; the third hands over the request
  at 100 and sets the head position to 100; the fourth returns 0 and hands over nothing.
  The handles \<open>a\<close>, \<open>b\<close>, \<open>c\<close> of the three requests are arbitrary.
\<close>

theorem scenario_three_requests:
  "sstf_add_request (sstf_add_request (sstf_add_request \<lparr>queue = [], head_position = 0\<rparr>
        \<lparr>rq_handle = a, rq_sector = 100\<rparr>) \<lparr>rq_handle = b, rq_sector = 10\<rparr>)
        \<lparr>rq_handle = c, rq_sector = 50\<rparr>
     = \<lparr>queue = [\<lparr>rq_handle = a, rq_sector = 100\<rparr>, \<lparr>rq_handle = b, rq_sector = 10\<rparr>,
                 \<lparr>rq_handle = c, rq_sector = 50\<rparr>], head_position = 0\<rparr>
   \<and> sstf_dispatch \<lparr>queue = [\<lparr>rq_handle = a, rq_sector = 100\<rparr>, \<lparr>rq_handle = b, rq_sector = 10\<rparr>,
                 \<lparr>rq_handle = c, rq_sector = 50\<rparr>], head_position = 0\<rparr>
     = (1, Some \<lparr>rq_handle = b, rq_sector = 10\<rparr>,
        \<lparr>queue = [\<lparr>rq_handle = a, rq_sector = 100\<rparr>, \<lparr>rq_handle = c, rq_sector = 50\<rparr>],
         head_position = 10\<rparr>)
   \<and> sstf_dispatch \<lparr>queue = [\<lparr>rq_handle = a, rq_sector = 100\<rparr>, \<lparr>rq_handle = c, rq_sector = 50\<rparr>],
         head_position = 10\<rparr>
     = (1, Some \<lparr>rq_handle = c, rq_sector = 50\<rparr>,
        \<lparr>queue = [\<lparr>rq_handle = a, rq_sector = 100\<rparr>], head_position = 50\<rparr>)
   \<and> sstf_dispatch \<lparr>queue = [\<lparr>rq_handle = a, rq_sector = 100\<rparr>], head_position = 50\<rparr>
     = (1, Some \<lparr>rq_handle = a, rq_sector = 100\<rparr>, \<lparr>queue = [], head_position = 100\<rparr>)
   \<and> sstf_dispatch \<lparr>queue = [], head_position = 100\<rparr>
     = (0, None, \<lparr>queue = [], head_position = 100\<rparr>)"
  by (simp add: sstf_add_request_def sstf_dispatch_def sstf_find_next_request_def
      sstf_distance_def kernel_abs_def blk_rq_pos_def list_del_init_def)

text \<open>
  The first of the requests that tie for the least \<open>|target_location - head_position|\<close>
  is not selected on every queue: with head position 0 and requests at 5, 5 and
  \<open>2^64 - 1\<close>, the first two tie at the least distance 5, and the scan returns the third,
  whose computed distance is 1.
\<close>

theorem ties_wrapped_counterexample:
  "seek_distance \<lparr>queue = [\<lparr>rq_handle = 1, rq_sector = 5\<rparr>, \<lparr>rq_handle = 2, rq_sector = 5\<rparr>,
        \<lparr>rq_handle = 3, rq_sector = 18446744073709551615\<rparr>], head_position = 0\<rparr>
      \<lparr>rq_handle = 1, rq_sector = 5\<rparr> = 5
   \<and> seek_distance \<lparr>queue = [\<lparr>rq_handle = 1, rq_sector = 5\<rparr>, \<lparr>rq_handle = 2, rq_sector = 5\<rparr>,
        \<lparr>rq_handle = 3, rq_sector = 18446744073709551615\<rparr>], head_position = 0\<rparr>
      \<lparr>rq_handle = 2, rq_sector = 5\<rparr> = 5
   \<and> seek_distance \<lparr>queue = [\<lparr>rq_handle = 1, rq_sector = 5\<rparr>, \<lparr>rq_handle = 2, rq_sector = 5\<rparr>,
        \<lparr>rq_handle = 3, rq_sector = 18446744073709551615\<rparr>], head_position = 0\<rparr>
      \<lparr>rq_handle = 3, rq_sector = 18446744073709551615\<rparr> = 18446744073709551615
   \<and> sstf_find_next_request \<lparr>queue = [\<lparr>rq_handle = 1, rq_sector = 5\<rparr>,
        \<lparr>rq_handle = 2, rq_sector = 5\<rparr>,
        \<lparr>rq_handle = 3, rq_sector = 18446744073709551615\<rparr>], head_position = 0\<rparr>
      = Some \<lparr>rq_handle = 3, rq_sector = 18446744073709551615\<rparr>
   \<and> sstf_dispatch \<lparr>queue = [\<lparr>rq_handle = 1, rq_sector = 5\<rparr>,
        \<lparr>rq_handle = 2, rq_sector = 5\<rparr>,
        \<lparr>rq_handle = 3, rq_sector = 18446744073709551615\<rparr>], head_position = 0\<rparr>
      = (1, Some \<lparr>rq_handle = 3, rq_sector = 18446744073709551615\<rparr>,
         \<lparr>queue = [\<lparr>rq_handle = 1, rq_sector = 5\<rparr>, \<lparr>rq_handle = 2, rq_sector = 5\<rparr>],
          head_position = 18446744073709551615\<rparr>)"
  by (simp add: seek_distance_def sstf_dispatch_def sstf_find_next_request_def
      sstf_distance_def kernel_abs_def blk_rq_pos_def list_del_init_def)

text \<open>
  C2 (amended). When the entry \<open>r\<close> of the queue is the first, in queue order, of the
  entries that attain the least distance from the head position, then
  \<^verbatim>\<open>sstf_find_next_request\<close> returns \<open>r\<close> and \<^verbatim>\<open>sstf_dispatch\<close> hands over \<open>r\<close>, removes it and
  sets the head position to its sector. This holds for the distance
  \<open>|target_location - head_position|\<close> on every queue whose requests all lie within
  \<open>2^63\<close> sectors of the head position, and for the distance the scan computes on every
  queue and head position. In particular, with head position 20, after adding a request
  at 10 and then one at 30 (both at distance 10), dispatch hands over the request at 10.
\<close>

theorem tie_break_first_in_queue:
  "(queue nd = pre @ r # post
      \<and> (\<forall>x\<in>set (queue nd). seek_distance nd x \<le> 2^63)
      \<and> (\<forall>x\<in>set (queue nd). seek_distance nd r \<le> seek_distance nd x)
      \<and> (\<forall>x\<in>set pre. seek_distance nd x \<noteq> seek_distance nd r)
    \<longrightarrow> sstf_find_next_request nd = Some r
      \<and> sstf_dispatch nd =
          (1, Some r, \<lparr>queue = pre @ post, head_position = rq_sector r\<rparr>))
   \<and> (queue nd = pre @ r # post
      \<and> (\<forall>x\<in>set (queue nd). sstf_distance nd r \<le> sstf_distance nd x)
      \<and> (\<forall>x\<in>set pre. sstf_distance nd x \<noteq> sstf_distance nd r)
    \<longrightarrow> sstf_find_next_request nd = Some r
      \<and> sstf_dispatch nd =
          (1, Some r, \<lparr>queue = pre @ post, head_position = rq_sector r\<rparr>))
   \<and> sstf_dispatch (sstf_add_request (sstf_add_request \<lparr>queue = [], head_position = 20\<rparr>
        \<lparr>rq_handle = a, rq_sector = 10\<rparr>) \<lparr>rq_handle = b, rq_sector = 30\<rparr>)
     = (1, Some \<lparr>rq_handle = a, rq_sector = 10\<rparr>,
        \<lparr>queue = [\<lparr>rq_handle = b, rq_sector = 30\<rparr>], head_position = 10\<rparr>)"
proof (intro conjI impI)
  assume h: "queue nd = pre @ r # post
      \<and> (\<forall>x\<in>set (queue nd). seek_distance nd x \<le> 2^63)
      \<and> (\<forall>x\<in>set (queue nd). seek_distance nd r \<le> seek_distance nd x)
      \<and> (\<forall>x\<in>set pre. seek_distance nd x \<noteq> seek_distance nd r)"
  then have a: "queue nd = pre @ r # post" by blast
  have rb: "seek_distance nd r \<le> 2^63" using h by simp
  have least: "\<forall>x\<in>set (queue nd). sstf_distance nd r \<le> sstf_distance nd x"
  proof
    fix x assume x: "x \<in> set (queue nd)"
    with h have "seek_distance nd x \<le> 2^63" "seek_distance nd r \<le> seek_distance nd x"
      by blast+
    then show "sstf_distance nd r \<le> sstf_distance nd x"
      using computed_le_iff [OF rb] by blast
  qed
  have first: "\<forall>x\<in>set pre. sstf_distance nd x \<noteq> sstf_distance nd r"
  proof
    fix x assume x: "x \<in> set pre"
    then have "x \<in> set (queue nd)" using a by simp
    with h x have "seek_distance nd x \<le> 2^63" "seek_distance nd x \<noteq> seek_distance nd r"
      by blast+
    then show "sstf_distance nd x \<noteq> sstf_distance nd r"
      using computed_eq_iff [OF rb] by blast
  qed
  from first_least_selected [OF a least first]
  show "sstf_find_next_request nd = Some r"
    and "sstf_dispatch nd = (1, Some r, \<lparr>queue = pre @ post, head_position = rq_sector r\<rparr>)"
    by blast+
next
  assume h: "queue nd = pre @ r # post
      \<and> (\<forall>x\<in>set (queue nd). sstf_distance nd r \<le> sstf_distance nd x)
      \<and> (\<forall>x\<in>set pre. sstf_distance nd x \<noteq> sstf_distance nd r)"
  then have "sstf_find_next_request nd = Some r
      \<and> sstf_dispatch nd = (1, Some r, \<lparr>queue = pre @ post, head_position = rq_sector r\<rparr>)"
    using first_least_selected [of nd pre r post] by blast
  then show "sstf_find_next_request nd = Some r"
    and "sstf_dispatch nd = (1, Some r, \<lparr>queue = pre @ post, head_position = rq_sector r\<rparr>)"
    by blast+
next
  show "sstf_dispatch (sstf_add_request (sstf_add_request \<lparr>queue = [], head_position = 20\<rparr>
        \<lparr>rq_handle = a, rq_sector = 10\<rparr>) \<lparr>rq_handle = b, rq_sector = 30\<rparr>)
     = (1, Some \<lparr>rq_handle = a, rq_sector = 10\<rparr>,
        \<lparr>queue = [\<lparr>rq_handle = b, rq_sector = 30\<rparr>], head_position = 10\<rparr>)"
    by (simp add: sstf_add_request_def sstf_dispatch_def sstf_find_next_request_def
        sstf_distance_def kernel_abs_def blk_rq_pos_def list_del_init_def)
qed

text \<open>
  The theorem at the queue [40, 10, 30] with head position 20: the entries at 10 and 30
  tie at distance 10, by \<open>|target_location - head_position|\<close> and by the computed
  distance, and the one at 10 comes first.
\<close>

theorem tie_break_first_in_queue_witness:
  "sstf_find_next_request
     \<lparr>queue = [\<lparr>rq_handle = 1, rq_sector = 40\<rparr>, \<lparr>rq_handle = 2, rq_sector = 10\<rparr>,
               \<lparr>rq_handle = 3, rq_sector = 30\<rparr>], head_position = 20\<rparr>
     = Some \<lparr>rq_handle = 2, rq_sector = 10\<rparr>
   \<and> sstf_dispatch
     \<lparr>queue = [\<lparr>rq_handle = 1, rq_sector = 40\<rparr>, \<lparr>rq_handle = 2, rq_sector = 10\<rparr>,
               \<lparr>rq_handle = 3, rq_sector = 30\<rparr>], head_position = 20\<rparr>
     = (1, Some \<lparr>rq_handle = 2, rq_sector = 10\<rparr>,
        \<lparr>queue = [\<lparr>rq_handle = 1, rq_sector = 40\<rparr>, \<lparr>rq_handle = 3, rq_sector = 30\<rparr>],
         head_position = 10\<rparr>)"
proof -
  let ?nd = "\<lparr>queue = [\<lparr>rq_handle = 1, rq_sector = 40\<rparr>, \<lparr>rq_handle = 2, rq_sector = 10\<rparr>,
               \<lparr>rq_handle = 3, rq_sector = 30\<rparr>], head_position = 20\<rparr>"
  let ?pre = "[\<lparr>rq_handle = 1, rq_sector = 40\<rparr>]"
  let ?r = "\<lparr>rq_handle = 2, rq_sector = 10\<rparr>"
  let ?post = "[\<lparr>rq_handle = 3, rq_sector = 30\<rparr>]"
  have h: "queue ?nd = ?pre @ ?r # ?post
      \<and> (\<forall>x\<in>set (queue ?nd). seek_distance ?nd x \<le> 2^63)
      \<and> (\<forall>x\<in>set (queue ?nd). seek_distance ?nd ?r \<le> seek_distance ?nd x)
      \<and> (\<forall>x\<in>set ?pre. seek_distance ?nd x \<noteq> seek_distance ?nd ?r)"
    by (simp add: seek_distance_def)
  have c: "queue ?nd = ?pre @ ?r # ?post
      \<and> (\<forall>x\<in>set (queue ?nd). sstf_distance ?nd ?r \<le> sstf_distance ?nd x)
      \<and> (\<forall>x\<in>set ?pre. sstf_distance ?nd x \<noteq> sstf_distance ?nd ?r)"
    by (simp add: sstf_distance_def kernel_abs_def blk_rq_pos_def)
  from tie_break_first_in_queue [of ?nd ?pre ?r ?post] h c show ?thesis by simp
qed

section \<open>Dispatch\<close>

text \<open>
  The request handed over is not on every queue one of least
  \<open>|target_location - head_position|\<close>: with head position 0 and requests at \<open>2^63\<close> and
  \<open>2^63 + 1\<close>, dispatch hands over the second (computed distance \<open>2^63 - 1\<close>), and the first
  is nearer.
\<close>

theorem far_request_first_counterexample:
  "sstf_dispatch \<lparr>queue = [\<lparr>rq_handle = 1, rq_sector = 9223372036854775808\<rparr>,
        \<lparr>rq_handle = 2, rq_sector = 9223372036854775809\<rparr>], head_position = 0\<rparr>
     = (1, Some \<lparr>rq_handle = 2, rq_sector = 9223372036854775809\<rparr>,
        \<lparr>queue = [\<lparr>rq_handle = 1, rq_sector = 9223372036854775808\<rparr>],
         head_position = 9223372036854775809\<rparr>)
   \<and> seek_distance \<lparr>queue = [\<lparr>rq_handle = 1, rq_sector = 9223372036854775808\<rparr>,
        \<lparr>rq_handle = 2, rq_sector = 9223372036854775809\<rparr>], head_position = 0\<rparr>
        \<lparr>rq_handle = 1, rq_sector = 9223372036854775808\<rparr>
     < seek_distance \<lparr>queue = [\<lparr>rq_handle = 1, rq_sector = 9223372036854775808\<rparr>,
        \<lparr>rq_handle = 2, rq_sector = 9223372036854775809\<rparr>], head_position = 0\<rparr>
        \<lparr>rq_handle = 2, rq_sector = 9223372036854775809\<rparr>"
  by (simp add: seek_distance_def sstf_dispatch_def sstf_find_next_request_def
      sstf_distance_def kernel_abs_def blk_rq_pos_def list_del_init_def)

text \<open>
  C3 (amended). On every non-empty queue \<^verbatim>\<open>sstf_dispatch\<close> returns 1, hands over the
  request \<open>rq\<close> that \<^verbatim>\<open>sstf_find_next_request\<close> returns, sets the head position to the
  sector of \<open>rq\<close> and removes exactly that entry: the queue \<open>pre @ rq # post\<close> becomes
  \<open>pre @ post\<close>, so all other entries stay, in their order. The request \<open>rq\<close> has the
  least computed distance of the queue; when all requests of the queue lie within
  \<open>2^63\<close> sectors of the head position, it has the least
  \<open>|target_location - head_position|\<close>.
\<close>

theorem dispatch_removes_nearest:
  assumes "queue nd \<noteq> []"
  shows "\<exists>pre rq post. queue nd = pre @ rq # post \<and> rq \<notin> set pre
     \<and> sstf_find_next_request nd = Some rq
     \<and> (\<forall>x\<in>set (queue nd). sstf_distance nd rq \<le> sstf_distance nd x)
     \<and> ((\<forall>x\<in>set (queue nd). seek_distance nd x \<le> 2^63) \<longrightarrow>
          (\<forall>x\<in>set (queue nd). seek_distance nd rq \<le> seek_distance nd x))
     \<and> sstf_dispatch nd =
         (1, Some rq, \<lparr>queue = pre @ post, head_position = rq_sector rq\<rparr>)"
proof -
  from dispatch_split [OF assms] obtain pre rq post where
    s: "queue nd = pre @ rq # post" and n: "rq \<notin> set pre"
    and f: "sstf_find_next_request nd = Some rq"
    and m: "\<forall>x\<in>set (queue nd). sstf_distance nd rq \<le> sstf_distance nd x"
    and d: "sstf_dispatch nd =
         (1, Some rq, \<lparr>queue = pre @ post, head_position = blk_rq_pos rq\<rparr>)"
    by blast
  have rq: "rq \<in> set (queue nd)" using s by simp
  have t: "(\<forall>x\<in>set (queue nd). seek_distance nd x \<le> 2^63) \<longrightarrow>
          (\<forall>x\<in>set (queue nd). seek_distance nd rq \<le> seek_distance nd x)"
  proof (intro impI ballI)
    fix x assume b: "\<forall>x\<in>set (queue nd). seek_distance nd x \<le> 2^63" and x: "x \<in> set (queue nd)"
    from b rq x have "seek_distance nd rq \<le> 2^63" "seek_distance nd x \<le> 2^63" by blast+
    from computed_le_iff [OF this] m x show "seek_distance nd rq \<le> seek_distance nd x" by blast
  qed
  have d': "sstf_dispatch nd =
         (1, Some rq, \<lparr>queue = pre @ post, head_position = rq_sector rq\<rparr>)"
    using d by (simp only: blk_rq_pos_def)
  from s n f m t d' show ?thesis by blast
qed

text \<open>
  The theorem at the queue [100, 10, 50] with head position 0: the request at 10 is
  handed over, the queue becomes [100, 50] and the head position 10. The scan, evaluated
  on this queue, returns the request at 10.
\<close>

theorem dispatch_removes_nearest_witness:
  "sstf_dispatch \<lparr>queue = [\<lparr>rq_handle = 1, rq_sector = 100\<rparr>, \<lparr>rq_handle = 2, rq_sector = 10\<rparr>,
            \<lparr>rq_handle = 3, rq_sector = 50\<rparr>], head_position = 0\<rparr>
     = (1, Some \<lparr>rq_handle = 2, rq_sector = 10\<rparr>,
        \<lparr>queue = [\<lparr>rq_handle = 1, rq_sector = 100\<rparr>, \<lparr>rq_handle = 3, rq_sector = 50\<rparr>],
         head_position = 10\<rparr>)
   \<and> sstf_find_next_request \<lparr>queue = [\<lparr>rq_handle = 1, rq_sector = 100\<rparr>,
            \<lparr>rq_handle = 2, rq_sector = 10\<rparr>, \<lparr>rq_handle = 3, rq_sector = 50\<rparr>],
            head_position = 0\<rparr>
     = Some \<lparr>rq_handle = 2, rq_sector = 10\<rparr>"
proof -
  let ?r1 = "\<lparr>rq_handle = 1, rq_sector = 100\<rparr>"
  let ?r2 = "\<lparr>rq_handle = 2, rq_sector = 10\<rparr>"
  let ?r3 = "\<lparr>rq_handle = 3, rq_sector = 50\<rparr>"
  let ?nd = "\<lparr>queue = [?r1, ?r2, ?r3], head_position = 0\<rparr>"
  have h: "queue ?nd \<noteq> []" by simp
  have b: "\<forall>x\<in>set (queue ?nd). seek_distance ?nd x \<le> 2^63"
    by (simp add: seek_distance_def)
  from dispatch_removes_nearest [OF h] b obtain pre rq post where
    s: "queue ?nd = pre @ rq # post"
    and m: "\<forall>x\<in>set (queue ?nd). seek_distance ?nd rq \<le> seek_distance ?nd x"
    and d: "sstf_dispatch ?nd =
         (1, Some rq, \<lparr>queue = pre @ post, head_position = rq_sector rq\<rparr>)"
    by blast
  from m have m2: "seek_distance ?nd rq \<le> 10" by (simp add: seek_distance_def)
  from s have "(pre = [] \<and> rq = ?r1 \<and> post = [?r2, ?r3])
      \<or> (pre = [?r1] \<and> rq = ?r2 \<and> post = [?r3])
      \<or> (pre = [?r1, ?r2] \<and> rq = ?r3 \<and> post = [])"
    by (auto simp: append_eq_Cons_conv Cons_eq_append_conv)
  with m2 have "pre = [?r1] \<and> rq = ?r2 \<and> post = [?r3]"
    by (auto simp: seek_distance_def)
  with d have 1: "sstf_dispatch ?nd = (1, Some ?r2, \<lparr>queue = [?r1, ?r3], head_position = 10\<rparr>)"
    by simp
  have 2: "sstf_find_next_request ?nd = Some ?r2"
    by (simp add: sstf_find_next_request_def sstf_distance_def kernel_abs_def blk_rq_pos_def)
  from 1 2 show ?thesis by (rule conjI)
qed

text \<open>
  Dispatching until the queue is empty does not give non-decreasing distances: with
  head position 0 and requests at 10 and 11, the request at 10 goes first at distance
  10, and the request at 11 follows at distance 1 from the new head position 10.
\<close>

theorem distances_not_monotone_counterexample:
  "dispatch_distances (foldl sstf_add_request \<lparr>queue = [], head_position = 0\<rparr>
       [\<lparr>rq_handle = 1, rq_sector = 10\<rparr>, \<lparr>rq_handle = 2, rq_sector = 11\<rparr>]) = [10, 1]
   \<and> \<not> sorted (dispatch_distances (foldl sstf_add_request \<lparr>queue = [], head_position = 0\<rparr>
       [\<lparr>rq_handle = 1, rq_sector = 10\<rparr>, \<lparr>rq_handle = 2, rq_sector = 11\<rparr>]))"
proof -
  let ?r1 = "\<lparr>rq_handle = 1, rq_sector = 10\<rparr>"
  let ?r2 = "\<lparr>rq_handle = 2, rq_sector = 11\<rparr>"
  let ?s0 = "\<lparr>queue = [?r1, ?r2], head_position = 0\<rparr>"
  let ?s1 = "\<lparr>queue = [?r2], head_position = 10\<rparr>"
  let ?s2 = "\<lparr>queue = [], head_position = 11\<rparr>"
  have a: "foldl sstf_add_request \<lparr>queue = [], head_position = 0\<rparr> [?r1, ?r2] = ?s0"
    by (simp add: sstf_add_request_def)
  have d0: "sstf_dispatch ?s0 = (1, Some ?r1, ?s1)"
    by (simp add: sstf_dispatch_def sstf_find_next_request_def sstf_distance_def
        kernel_abs_def blk_rq_pos_def list_del_init_def)
  have d1: "sstf_dispatch ?s1 = (1, Some ?r2, ?s2)"
    by (simp add: sstf_dispatch_def sstf_find_next_request_def sstf_distance_def
        kernel_abs_def blk_rq_pos_def list_del_init_def)
  have d2: "sstf_dispatch ?s2 = (0, None, ?s2)"
    by (simp add: sstf_dispatch_def sstf_find_next_request_def)
  have "drain ?s0 = [(?s0, ?r1, ?s1), (?s1, ?r2, ?s2)]"
    by (simp only: drain_step [OF d0] drain_step [OF d1] drain_idle [OF d2])
  then have "dispatch_distances ?s0 = [10, 1]"
    by (simp add: dispatch_distances_def sstf_distance_def kernel_abs_def blk_rq_pos_def)
  then have e: "dispatch_distances (foldl sstf_add_request \<lparr>queue = [], head_position = 0\<rparr>
       [?r1, ?r2]) = [10, 1]"
    by (simp only: a)
  show ?thesis unfolding e by (simp add: word_le_nat_alt)
qed

text \<open>
  C4 (amended). For every head position \<open>h\<close> and every sequence \<open>rs\<close> of added requests,
  dispatching until the queue is empty takes exactly \<open>length rs\<close> successful dispatches
  and hands over every added request once. Each dispatch returns 1 and hands over a
  pending request whose computed distance from the head position at the time of that
  dispatch is the least among the requests pending then, and after it the head position
  is the sector of that request. When \<open>h\<close> and all added sectors are below \<open>2^63\<close>, the
  request handed over has the least \<open>|location - head_position|\<close> among the requests
  pending then. The steps follow one another: the first starts in the state after the
  adds, each next one in the state the previous one left, and the last one leaves the
  queue empty. Nothing is said of the order of the distances across dispatches.
\<close>

theorem drain_nearest_each_time:
  assumes "nd = foldl sstf_add_request \<lparr>queue = [], head_position = h\<rparr> rs"
  shows "queue nd = rs \<and> head_position nd = h
     \<and> mset (map (\<lambda>(s, rq, s'). rq) (drain nd)) = mset rs
     \<and> length (drain nd) = length rs
     \<and> (\<forall>(s, rq, s')\<in>set (drain nd).
           sstf_dispatch s = (1, Some rq, s') \<and> rq \<in> set (queue s)
           \<and> (\<forall>x\<in>set (queue s). sstf_distance s rq \<le> sstf_distance s x)
           \<and> head_position s' = rq_sector rq)
     \<and> (uint h < 2^63 \<and> (\<forall>x\<in>set rs. uint (rq_sector x) < 2^63) \<longrightarrow>
           (\<forall>(s, rq, s')\<in>set (drain nd).
              \<forall>x\<in>set (queue s). seek_distance s rq \<le> seek_distance s x))
     \<and> (drain nd \<noteq> [] \<longrightarrow>
           fst (hd (drain nd)) = nd \<and> queue (snd (snd (last (drain nd)))) = [])
     \<and> (\<forall>i. Suc i < length (drain nd) \<longrightarrow>
           fst (drain nd ! Suc i) = snd (snd (drain nd ! i)))"
proof -
  have q: "queue nd = rs" and h: "head_position nd = h"
    using assms by (simp_all add: add_requests)
  have m: "mset (map (\<lambda>(s, rq, s'). rq) (drain nd)) = mset rs"
    using drain_all [of nd] q by simp
  have "size (mset (map (\<lambda>(s, rq, s'). rq) (drain nd))) = size (mset rs)"
    by (simp only: m)
  then have l: "length (drain nd) = length rs" by simp
  have st: "\<forall>(s, rq, s')\<in>set (drain nd).
           sstf_dispatch s = (1, Some rq, s') \<and> rq \<in> set (queue s)
           \<and> (\<forall>x\<in>set (queue s). sstf_distance s rq \<le> sstf_distance s x)
           \<and> head_position s' = rq_sector rq"
  proof (clarify, intro conjI)
    fix s rq s' assume mem: "(s, rq, s') \<in> set (drain nd)"
    from drain_steps [of nd] mem have d: "sstf_dispatch s = (1, Some rq, s')"
      and le: "\<forall>x\<in>set (queue s). sstf_distance s rq \<le> sstf_distance s x"
      and hp: "head_position s' = blk_rq_pos rq"
      by blast+
    show "sstf_dispatch s = (1, Some rq, s')" by (rule d)
    show "rq \<in> set (queue s)" using drain_states [of nd] mem by blast
    show "\<forall>x\<in>set (queue s). sstf_distance s rq \<le> sstf_distance s x" by (rule le)
    show "head_position s' = rq_sector rq" using hp by (simp only: blk_rq_pos_def)
  qed
  have sk: "uint h < 2^63 \<and> (\<forall>x\<in>set rs. uint (rq_sector x) < 2^63) \<longrightarrow>
           (\<forall>(s, rq, s')\<in>set (drain nd).
              \<forall>x\<in>set (queue s). seek_distance s rq \<le> seek_distance s x)"
    using drain_seek_least [of nd] q h by blast
  from q h m l st sk drain_chain [of nd] show ?thesis by blast
qed

text \<open>
  The theorem at head position 0 with requests added at 11 and then at 10: two
  dispatches, the first hands over the request at 10 and leaves the head position 10,
  as the first dispatch evaluated on this state does.
\<close>

theorem drain_nearest_each_time_witness:
  "length (drain (foldl sstf_add_request \<lparr>queue = [], head_position = 0\<rparr>
       [\<lparr>rq_handle = 1, rq_sector = 11\<rparr>, \<lparr>rq_handle = 2, rq_sector = 10\<rparr>])) = 2
   \<and> fst (snd (hd (drain (foldl sstf_add_request \<lparr>queue = [], head_position = 0\<rparr>
       [\<lparr>rq_handle = 1, rq_sector = 11\<rparr>, \<lparr>rq_handle = 2, rq_sector = 10\<rparr>]))))
     = \<lparr>rq_handle = 2, rq_sector = 10\<rparr>
   \<and> head_position (snd (snd (hd (drain (foldl sstf_add_request
       \<lparr>queue = [], head_position = 0\<rparr>
       [\<lparr>rq_handle = 1, rq_sector = 11\<rparr>, \<lparr>rq_handle = 2, rq_sector = 10\<rparr>])))))
     = 10
   \<and> sstf_dispatch (foldl sstf_add_request \<lparr>queue = [], head_position = 0\<rparr>
       [\<lparr>rq_handle = 1, rq_sector = 11\<rparr>, \<lparr>rq_handle = 2, rq_sector = 10\<rparr>])
     = (1, Some \<lparr>rq_handle = 2, rq_sector = 10\<rparr>,
        \<lparr>queue = [\<lparr>rq_handle = 1, rq_sector = 11\<rparr>], head_position = 10\<rparr>)"
proof -
  let ?r1 = "\<lparr>rq_handle = 1, rq_sector = 11\<rparr>"
  let ?r2 = "\<lparr>rq_handle = 2, rq_sector = 10\<rparr>"
  let ?rs = "[?r1, ?r2]"
  define nd where "nd = foldl sstf_add_request \<lparr>queue = [], head_position = 0\<rparr> ?rs"
  have b: "uint (0::sector_t) < 2^63 \<and> (\<forall>x\<in>set ?rs. uint (rq_sector x) < 2^63)"
    by simp
  from drain_nearest_each_time [OF nd_def] b have
    q: "queue nd = ?rs" and h: "head_position nd = 0"
    and l: "length (drain nd) = length ?rs"
    and st: "\<forall>(s, rq, s')\<in>set (drain nd).
           sstf_dispatch s = (1, Some rq, s') \<and> rq \<in> set (queue s)
           \<and> (\<forall>x\<in>set (queue s). sstf_distance s rq \<le> sstf_distance s x)
           \<and> head_position s' = rq_sector rq"
    and sk: "\<forall>(s, rq, s')\<in>set (drain nd).
              \<forall>x\<in>set (queue s). seek_distance s rq \<le> seek_distance s x"
    and c: "drain nd \<noteq> [] \<longrightarrow> fst (hd (drain nd)) = nd"
    by blast+
  from l have ne: "drain nd \<noteq> []" by auto
  obtain s rq s' where e: "hd (drain nd) = (s, rq, s')" by (cases "hd (drain nd)") blast
  from ne e have mem: "(s, rq, s') \<in> set (drain nd)" by (metis hd_in_set)
  from c ne e have s: "s = nd" by simp
  from st mem s have rq: "rq \<in> set (queue nd)" and hp: "head_position s' = rq_sector rq"
    by blast+
  from sk mem s have "\<forall>x\<in>set (queue nd). seek_distance nd rq \<le> seek_distance nd x"
    by blast
  then have "seek_distance nd rq \<le> 10" using q h by (simp add: seek_distance_def)
  moreover from rq q have "rq = ?r1 \<or> rq = ?r2" by simp
  ultimately have r: "rq = ?r2" using h by (auto simp: seek_distance_def)
  have ev: "sstf_dispatch (foldl sstf_add_request \<lparr>queue = [], head_position = 0\<rparr> ?rs)
     = (1, Some ?r2, \<lparr>queue = [?r1], head_position = 10\<rparr>)"
    by (simp add: sstf_add_request_def sstf_dispatch_def sstf_find_next_request_def
        sstf_distance_def kernel_abs_def blk_rq_pos_def list_del_init_def)
  from l e r hp have "length (drain nd) = 2 \<and> fst (snd (hd (drain nd))) = ?r2
      \<and> head_position (snd (snd (hd (drain nd)))) = 10"
    by simp
  with ev show ?thesis unfolding nd_def by blast
qed

text \<open>
  C5. With an empty queue \<^verbatim>\<open>sstf_dispatch\<close> returns 0, hands over nothing and leaves
  the state (queue and head position) as it was; so do \<open>n\<close> calls in a row, for every
  \<open>n\<close>.
\<close>

theorem dispatch_idle:
  "queue nd = [] \<Longrightarrow>
     sstf_dispatch nd = (0, None, nd) \<and> dispatch_repeat n nd = (replicate n 0, nd)"
proof -
  assume e: "queue nd = []"
  have d: "sstf_dispatch nd = (0, None, nd)"
    using e by (simp add: sstf_dispatch_def find_next_request_empty)
  have "dispatch_repeat n nd = (replicate n 0, nd)"
    by (induction n) (simp_all add: d)
  with d show ?thesis by simp
qed

text \<open>
  The theorem at the empty queue with head position 7, three calls in a row.
\<close>

theorem dispatch_idle_witness:
  "sstf_dispatch \<lparr>queue = [], head_position = 7\<rparr> = (0, None, \<lparr>queue = [], head_position = 7\<rparr>)
   \<and> dispatch_repeat 3 \<lparr>queue = [], head_position = 7\<rparr>
      = ([0, 0, 0], \<lparr>queue = [], head_position = 7\<rparr>)"
  using dispatch_idle [of "\<lparr>queue = [], head_position = 7\<rparr>" 3]
  by (simp add: numeral_3_eq_3)

section \<open>Merge, teardown and initialisation\<close>

text \<open>
  C6. If \<open>nxt\<close> (the absorbed request) is in the queue, \<^verbatim>\<open>sstf_merged_requests\<close> removes
  it and nothing else: the queue \<open>pre @ nxt # post\<close> becomes \<open>pre @ post\<close>, one entry
  shorter, with the same entries but one occurrence of \<open>nxt\<close>; the other entries keep
  their relative order, the surviving request \<open>rq\<close> stays if it was queued, and in a
  queue without duplicates \<open>nxt\<close> is gone. The head position is unchanged, as it is by
  \<^verbatim>\<open>sstf_add_request\<close>.
\<close>

theorem merged_requests_removes_absorbed:
  assumes "nxt \<in> set (queue nd)"
  shows "(\<exists>pre post. queue nd = pre @ nxt # post \<and> nxt \<notin> set pre
            \<and> queue (sstf_merged_requests nd rq nxt) = pre @ post)
     \<and> Suc (length (queue (sstf_merged_requests nd rq nxt))) = length (queue nd)
     \<and> mset (queue nd) = add_mset nxt (mset (queue (sstf_merged_requests nd rq nxt)))
     \<and> filter (\<lambda>x. x \<noteq> nxt) (queue (sstf_merged_requests nd rq nxt))
         = filter (\<lambda>x. x \<noteq> nxt) (queue nd)
     \<and> (rq \<in> set (queue nd) \<and> rq \<noteq> nxt \<longrightarrow> rq \<in> set (queue (sstf_merged_requests nd rq nxt)))
     \<and> (distinct (queue nd) \<longrightarrow> nxt \<notin> set (queue (sstf_merged_requests nd rq nxt)))
     \<and> head_position (sstf_merged_requests nd rq nxt) = head_position nd
     \<and> head_position (sstf_add_request nd r) = head_position nd"
proof -
  have q: "queue (sstf_merged_requests nd rq nxt) = remove1 nxt (queue nd)"
    by (simp add: sstf_merged_requests_def list_del_init_def)
  from assms obtain pre post where s: "queue nd = pre @ nxt # post" and n: "nxt \<notin> set pre"
    by (auto dest: split_list_first)
  have r: "remove1 nxt (queue nd) = pre @ post" using s n by (simp add: remove1_append)
  have 1: "\<exists>pre post. queue nd = pre @ nxt # post \<and> nxt \<notin> set pre
            \<and> queue (sstf_merged_requests nd rq nxt) = pre @ post"
    using s n r q by auto
  have 2: "Suc (length (queue (sstf_merged_requests nd rq nxt))) = length (queue nd)"
    using s r q by simp
  have 3: "mset (queue nd) = add_mset nxt (mset (queue (sstf_merged_requests nd rq nxt)))"
    using s r q by simp
  have 4: "filter (\<lambda>x. x \<noteq> nxt) (queue (sstf_merged_requests nd rq nxt))
         = filter (\<lambda>x. x \<noteq> nxt) (queue nd)"
    using s r q by simp
  have 5: "rq \<in> set (queue nd) \<and> rq \<noteq> nxt \<longrightarrow> rq \<in> set (queue (sstf_merged_requests nd rq nxt))"
    using s r q by auto
  have 6: "distinct (queue nd) \<longrightarrow> nxt \<notin> set (queue (sstf_merged_requests nd rq nxt))"
    using q by simp
  have 7: "head_position (sstf_merged_requests nd rq nxt) = head_position nd"
    by (simp add: sstf_merged_requests_def)
  have 8: "head_position (sstf_add_request nd r) = head_position nd"
    by (simp add: sstf_add_request_def)
  from 1 2 3 4 5 6 7 8 show ?thesis by blast
qed

text \<open>
  The theorem at the queue of the requests 1, 2, 3 with request 2 absorbed into
  request 1.
\<close>

theorem merged_requests_removes_absorbed_witness:
  "sstf_merged_requests
     \<lparr>queue = [\<lparr>rq_handle = 1, rq_sector = 8\<rparr>, \<lparr>rq_handle = 2, rq_sector = 16\<rparr>,
               \<lparr>rq_handle = 3, rq_sector = 40\<rparr>], head_position = 5\<rparr>
     \<lparr>rq_handle = 1, rq_sector = 8\<rparr> \<lparr>rq_handle = 2, rq_sector = 16\<rparr>
   = \<lparr>queue = [\<lparr>rq_handle = 1, rq_sector = 8\<rparr>, \<lparr>rq_handle = 3, rq_sector = 40\<rparr>],
      head_position = 5\<rparr>"
proof -
  let ?r1 = "\<lparr>rq_handle = 1, rq_sector = 8\<rparr>"
  let ?r2 = "\<lparr>rq_handle = 2, rq_sector = 16\<rparr>"
  let ?r3 = "\<lparr>rq_handle = 3, rq_sector = 40\<rparr>"
  let ?nd = "\<lparr>queue = [?r1, ?r2, ?r3], head_position = 5\<rparr>"
  have h: "?r2 \<in> set (queue ?nd)" by simp
  from merged_requests_removes_absorbed [OF h, of ?r1]
  obtain pre post where s: "queue ?nd = pre @ ?r2 # post" and n: "?r2 \<notin> set pre"
    and q: "queue (sstf_merged_requests ?nd ?r1 ?r2) = pre @ post"
    and hp: "head_position (sstf_merged_requests ?nd ?r1 ?r2) = head_position ?nd"
    by blast
  from s n have "pre = [?r1] \<and> post = [?r3]"
    by (auto simp: append_eq_Cons_conv Cons_eq_append_conv)
  with q hp show ?thesis by (cases "sstf_merged_requests ?nd ?r1 ?r2") simp
qed

text \<open>
  C8. \<^verbatim>\<open>sstf_exit_queue\<close> on a non-empty queue ends in \<^verbatim>\<open>BUG\<close>, and never frees the
  state; on an empty queue the assertion passes and the state is freed.
\<close>

theorem exit_queue_bug_on_pending:
  "(queue nd \<noteq> [] \<longrightarrow> sstf_exit_queue nd = Inl BUG)
   \<and> (queue nd = [] \<longrightarrow> sstf_exit_queue nd = Inr Freed)"
  by (simp add: sstf_exit_queue_def list_empty_def)

text \<open>
  The theorem at a queue of one request and at the empty queue.
\<close>

theorem exit_queue_bug_on_pending_witness:
  "sstf_exit_queue \<lparr>queue = [\<lparr>rq_handle = 1, rq_sector = 8\<rparr>], head_position = 8\<rparr> = Inl BUG
   \<and> sstf_exit_queue \<lparr>queue = [], head_position = 8\<rparr> = Inr Freed"
  using exit_queue_bug_on_pending [of "\<lparr>queue = [\<lparr>rq_handle = 1, rq_sector = 8\<rparr>], head_position = 8\<rparr>"]
    exit_queue_bug_on_pending [of "\<lparr>queue = [], head_position = 8\<rparr>"]
  by simp

text \<open>
  C9. When both allocations succeed, \<^verbatim>\<open>sstf_init_queue\<close> returns 0 and installs a state
  with an empty queue and head position 0. When either fails it returns
  \<^verbatim>\<open>-ENOMEM\<close> (-12) and leaves the host queue as it was: nothing is installed.
\<close>

theorem init_queue_fresh_or_enomem:
  "(eq_allocated \<and> nd_allocated \<longrightarrow>
      sstf_init_queue eq_allocated nd_allocated q =
        (0, q\<lparr>elevator := Some \<lparr>queue = [], head_position = 0\<rparr>\<rparr>))
   \<and> (\<not> (eq_allocated \<and> nd_allocated) \<longrightarrow>
      sstf_init_queue eq_allocated nd_allocated q = (- 12, q))"
  by (simp add: sstf_init_queue_def ENOMEM_def)

text \<open>
  The theorem for the three outcomes of the allocations that the code tells apart.
\<close>

theorem init_queue_fresh_or_enomem_witness:
  "sstf_init_queue True True \<lparr>elevator = None\<rparr>
     = (0, \<lparr>elevator = Some \<lparr>queue = [], head_position = 0\<rparr>\<rparr>)
   \<and> sstf_init_queue True False \<lparr>elevator = None\<rparr> = (- 12, \<lparr>elevator = None\<rparr>)
   \<and> sstf_init_queue False True \<lparr>elevator = None\<rparr> = (- 12, \<lparr>elevator = None\<rparr>)"
  using init_queue_fresh_or_enomem [of True True "\<lparr>elevator = None\<rparr>"]
    init_queue_fresh_or_enomem [of True False "\<lparr>elevator = None\<rparr>"]
    init_queue_fresh_or_enomem [of False True "\<lparr>elevator = None\<rparr>"]
  by simp

section \<open>The computed distance and the sentinel\<close>

text \<open>
  The computed distance is not always the absolute difference of the two positions
  read as unsigned numbers: for a request at sector \<open>2^64 - 1\<close> and head position 0 the
  difference is \<open>2^64 - 1\<close>, and the scan computes 1.
\<close>

theorem distance_wraps_counterexample:
  "sstf_distance \<lparr>queue = [\<lparr>rq_handle = 1, rq_sector = 18446744073709551615\<rparr>], head_position = 0\<rparr>
      \<lparr>rq_handle = 1, rq_sector = 18446744073709551615\<rparr> = 1
   \<and> \<bar>uint (blk_rq_pos \<lparr>rq_handle = 1, rq_sector = 18446744073709551615\<rparr>)
        - uint (head_position \<lparr>queue = [\<lparr>rq_handle = 1, rq_sector = 18446744073709551615\<rparr>],
             head_position = 0\<rparr>)\<bar> = 18446744073709551615"
  by (simp add: sstf_distance_def kernel_abs_def blk_rq_pos_def)

text \<open>
  C7 (amended). The scan computes the absolute value of the wrapped 64-bit difference
  read as a signed number. With \<open>d\<close> the absolute difference of the two positions read
  as unsigned numbers, the computed distance is the lesser of \<open>d\<close> and \<open>2^64 - d\<close>. It is
  never negative and at most \<open>2^63\<close>. It equals \<open>d\<close> whenever \<open>d \<le> 2^63\<close>; in particular,
  on a medium of \<open>N \<le> 2^63\<close> sectors (both positions below \<open>N\<close>) it equals \<open>d\<close> and is
  below \<open>N\<close>.
\<close>

theorem distance_is_wrapped_abs:
  "uint (sstf_distance nd rq) =
      min \<bar>uint (blk_rq_pos rq) - uint (head_position nd)\<bar>
          (2^64 - \<bar>uint (blk_rq_pos rq) - uint (head_position nd)\<bar>)
   \<and> 0 \<le> uint (sstf_distance nd rq) \<and> uint (sstf_distance nd rq) \<le> 2^63
   \<and> (\<bar>uint (blk_rq_pos rq) - uint (head_position nd)\<bar> \<le> 2^63 \<longrightarrow>
        uint (sstf_distance nd rq) = \<bar>uint (blk_rq_pos rq) - uint (head_position nd)\<bar>)
   \<and> (N \<le> 2^63 \<and> uint (blk_rq_pos rq) < N \<and> uint (head_position nd) < N \<longrightarrow>
        uint (sstf_distance nd rq) = \<bar>uint (blk_rq_pos rq) - uint (head_position nd)\<bar>
        \<and> uint (sstf_distance nd rq) < N)"
proof -
  let ?A = "uint (blk_rq_pos rq)" and ?H = "uint (head_position nd)"
  have nn: "0 \<le> ?A" "0 \<le> ?H" by simp_all
  have m: "uint (sstf_distance nd rq) = min \<bar>?A - ?H\<bar> (2^64 - \<bar>?A - ?H\<bar>)"
    by (rule uint_sstf_distance)
  have small: "uint (sstf_distance nd rq) = \<bar>?A - ?H\<bar>" if "\<bar>?A - ?H\<bar> \<le> 2^63"
  proof -
    from that have "\<bar>?A - ?H\<bar> \<le> 2^64 - \<bar>?A - ?H\<bar>" by simp
    then show ?thesis unfolding m by (rule min.absorb1)
  qed
  have medium: "uint (sstf_distance nd rq) = \<bar>?A - ?H\<bar> \<and> uint (sstf_distance nd rq) < N"
    if "N \<le> 2^63 \<and> ?A < N \<and> ?H < N"
  proof -
    from that nn have lt: "\<bar>?A - ?H\<bar> < N" by linarith
    with that have "\<bar>?A - ?H\<bar> \<le> 2^63" by linarith
    from small [OF this] lt show ?thesis by simp
  qed
  have c2: "0 \<le> uint (sstf_distance nd rq)" by simp
  have c3: "uint (sstf_distance nd rq) \<le> 2^63" by (rule sstf_distance_le)
  from m c2 c3 small medium show ?thesis by blast
qed

text \<open>
  The theorem at sector 10 with head position 20, on a medium of 100 sectors.
\<close>

theorem distance_is_wrapped_abs_witness:
  "uint (sstf_distance \<lparr>queue = [], head_position = 20\<rparr> \<lparr>rq_handle = 1, rq_sector = 10\<rparr>) = 10"
  using distance_is_wrapped_abs
    [of "\<lparr>queue = [], head_position = 20\<rparr>" "\<lparr>rq_handle = 1, rq_sector = 10\<rparr>" 100]
  by (simp add: blk_rq_pos_def)

text \<open>
  No queue holds an entry whose computed distance is \<open>2^64 - 1\<close>, the value of the
  sentinel: the scan is never in the situation of having visited an entry with the
  minimum still undefined.
\<close>

theorem sentinel_never_a_distance_counterexample:
  "\<not> (\<exists>nd rq. rq \<in> set (queue nd) \<and> uint (sstf_distance nd rq) = 2^64 - 1)"
proof
  assume "\<exists>nd rq. rq \<in> set (queue nd) \<and> uint (sstf_distance nd rq) = 2^64 - 1"
  then obtain nd rq where "uint (sstf_distance nd rq) = 2^64 - 1" by blast
  moreover have "\<not> (2^64 - 1 \<le> (2^63::int))" by simp
  ultimately show False using sstf_distance_le [of nd rq] by (simp only:)
qed

text \<open>
  C10 (amended). The scan uses the all-ones word as its "minimum undefined" sentinel,
  and were \<^verbatim>\<open>min_distance\<close> all ones with a candidate chosen, the next entry would
  replace the candidate whatever its distance. But every computed distance is at most
  \<open>2^63\<close>, hence never the sentinel: once an entry has been visited \<^verbatim>\<open>min_distance\<close> is
  not all ones, and on every queue and head position \<^verbatim>\<open>sstf_find_next_request\<close> returns
  what the selection without a sentinel returns, the first entry of least computed
  distance.
\<close>

theorem sentinel_only_before_first_entry:
  "uint (sstf_distance nd rq) \<le> 2^63
   \<and> sstf_distance nd rq \<noteq> - 1
   \<and> fst (sstf_scan nd (x # xs) (- 1, None)) \<noteq> - 1
   \<and> sstf_scan nd (x # xs) (- 1, Some r) = sstf_scan nd xs (sstf_distance nd x, Some x)
   \<and> sstf_find_next_request nd = find_nearest_spec nd (queue nd)"
proof -
  have "x # xs \<noteq> []" by simp
  from sstf_scan_split [OF this, of nd] obtain r' where
    "sstf_scan nd (x # xs) (- 1, None) = (sstf_distance nd r', Some r')" by blast
  then have "fst (sstf_scan nd (x # xs) (- 1, None)) \<noteq> - 1"
    by (simp add: sstf_distance_not_sentinel)
  moreover have "sstf_scan nd (x # xs) (- 1, Some r) = sstf_scan nd xs (sstf_distance nd x, Some x)"
    by simp
  ultimately show ?thesis
    using sstf_distance_le [of nd rq] sstf_distance_not_sentinel [of nd rq]
      find_next_request_refines_spec [of nd] by blast
qed

end
